theory Spec2Isabelle
  imports Complex_Main
begin

section \<open>The fraud detector of \<^verbatim>\<open>backend/ml_model/fraud_detector.py\<close>\<close>

text \<open>
  A shallow embedding of the class \<^verbatim>\<open>FraudDetector\<close>: the UPI address checks, the
  rule-based scorer, the feature extraction for the CNN, the loading of the model and
  \<^verbatim>\<open>predict\<close> with its fallback.

  Numbers. The source computes with Python floats. Here an amount, a score and a feature
  are exact rationals: the weights \<open>0.3\<close>, \<open>0.2\<close>, ... are the decimals the source
  writes, and sums, comparisons and \<open>min\<close> are exact. Rounding of IEEE doubles (and the
  final cast of the feature array to \<^verbatim>\<open>float32\<close>) is therefore not part of the model.

  Strings. A Python \<^verbatim>\<open>str\<close> is a \<open>string\<close>, each \<open>char\<close> standing for the
  code point of the same number, so the strings of the model are the Python strings
  over the code points below 256. The classes of the regular expression are ASCII
  ranges; \<^verbatim>\<open>str.isdigit\<close> and \<^verbatim>\<open>str.lower\<close> are Python's methods on these code
  points, which also know the superscript digits and the accented capitals. A field that
  may hold \<^verbatim>\<open>None\<close> is an \<open>option\<close>.
\<close>

subsection \<open>Exceptions and the transaction record\<close>

datatype error = ValueError | TypeError | InferenceError

text \<open>
  \<^verbatim>\<open>transaction.amount\<close> is whatever the caller stored: a number, or a value that
  \<^verbatim>\<open>float()\<close> rejects (such as the text \<^verbatim>\<open>'abc'\<close>).
\<close>

datatype amount_field = Number rat | Malformed

record datetime =
  hour :: nat
  weekday :: nat

record transaction =
  amount :: amount_field
  transaction_type :: string
  sender_upi :: "string option"
  receiver_upi :: "string option"
  created_at :: datetime
  device_id :: "string option"
  location :: "string option"

text \<open>\<^verbatim>\<open>float(transaction.amount)\<close>: raises on a value that is not a number.\<close>

definition float_of :: "amount_field \<Rightarrow> error + rat" where
  "float_of x = (case x of Number a \<Rightarrow> Inr a | Malformed \<Rightarrow> Inl ValueError)"

text \<open>
  Python truthiness of an optional string: \<^verbatim>\<open>None\<close> and the empty string are
  false. \<open>falsy x\<close> is \<^verbatim>\<open>not x\<close>.
\<close>

definition falsy :: "string option \<Rightarrow> bool" where
  "falsy x = (case x of None \<Rightarrow> True | Some s \<Rightarrow> s = [])"

definition truthy :: "string option \<Rightarrow> bool" where
  "truthy x = (case x of None \<Rightarrow> False | Some s \<Rightarrow> s \<noteq> [])"

subsection \<open>Characters and substrings\<close>

definition lowercase_letters :: string where
  "lowercase_letters = ''abcdefghijklmnopqrstuvwxyz''"

definition uppercase_letters :: string where
  "uppercase_letters = ''ABCDEFGHIJKLMNOPQRSTUVWXYZ''"

definition is_alpha :: "char \<Rightarrow> bool" where
  \<comment> \<open>the class \<^verbatim>\<open>[a-zA-Z]\<close>\<close>
  "is_alpha c = (c \<in> set lowercase_letters \<or> c \<in> set uppercase_letters)"

definition is_class_digit :: "char \<Rightarrow> bool" where
  \<comment> \<open>the class \<^verbatim>\<open>[0-9]\<close>\<close>
  "is_class_digit c = (c \<in> set ''0123456789'')"

definition is_local_char :: "char \<Rightarrow> bool" where
  \<comment> \<open>the class \<^verbatim>\<open>[a-zA-Z0-9.\-_]\<close>\<close>
  "is_local_char c = (is_alpha c \<or> is_class_digit c \<or> c \<in> set ''.-_'')"

text \<open>
  \<^verbatim>\<open>c.isdigit()\<close>. Below 256 Python calls thirteen code points digits: \<^verbatim>\<open>0\<close> to
  \<^verbatim>\<open>9\<close>, and the superscripts two, three and one (U+00B2, U+00B3, U+00B9).
\<close>

definition superscript_digits :: string where
  "superscript_digits = [CHR 0xB2, CHR 0xB3, CHR 0xB9]"

definition isdigit :: "char \<Rightarrow> bool" where
  "isdigit c = (c \<in> set ''0123456789'' \<or> c \<in> set superscript_digits)"

text \<open>
  \<^verbatim>\<open>c.lower()\<close>. Below 256 Python lowers \<^verbatim>\<open>A\<close> to \<^verbatim>\<open>Z\<close> and the accented
  capitals U+00C0 to U+00DE, the multiplication sign U+00D7 apart, each to the code
  point 32 above it; every other code point stays.
\<close>

definition latin1_uppercase :: string where
  "latin1_uppercase =
     [CHR 0xC0, CHR 0xC1, CHR 0xC2, CHR 0xC3, CHR 0xC4, CHR 0xC5, CHR 0xC6, CHR 0xC7,
      CHR 0xC8, CHR 0xC9, CHR 0xCA, CHR 0xCB, CHR 0xCC, CHR 0xCD, CHR 0xCE, CHR 0xCF,
      CHR 0xD0, CHR 0xD1, CHR 0xD2, CHR 0xD3, CHR 0xD4, CHR 0xD5, CHR 0xD6,
      CHR 0xD8, CHR 0xD9, CHR 0xDA, CHR 0xDB, CHR 0xDC, CHR 0xDD, CHR 0xDE]"

definition latin1_lowercase :: string where
  "latin1_lowercase =
     [CHR 0xE0, CHR 0xE1, CHR 0xE2, CHR 0xE3, CHR 0xE4, CHR 0xE5, CHR 0xE6, CHR 0xE7,
      CHR 0xE8, CHR 0xE9, CHR 0xEA, CHR 0xEB, CHR 0xEC, CHR 0xED, CHR 0xEE, CHR 0xEF,
      CHR 0xF0, CHR 0xF1, CHR 0xF2, CHR 0xF3, CHR 0xF4, CHR 0xF5, CHR 0xF6,
      CHR 0xF8, CHR 0xF9, CHR 0xFA, CHR 0xFB, CHR 0xFC, CHR 0xFD, CHR 0xFE]"

definition lower_char :: "char \<Rightarrow> char" where
  "lower_char c =
     (case map_of (zip (uppercase_letters @ latin1_uppercase)
                       (lowercase_letters @ latin1_lowercase)) c of
        None \<Rightarrow> c
      | Some l \<Rightarrow> l)"

definition lower :: "string \<Rightarrow> string" where
  \<comment> \<open>\<^verbatim>\<open>s.lower()\<close>\<close>
  "lower s = map lower_char s"

fun startswith :: "string \<Rightarrow> string \<Rightarrow> bool" where
  "startswith s [] = True"
| "startswith [] (k # ks) = False"
| "startswith (c # cs) (k # ks) = (c = k \<and> startswith cs ks)"

text \<open>\<^verbatim>\<open>k in s\<close> on strings: \<open>k\<close> occurs in \<open>s\<close> as a contiguous substring.\<close>

fun str_in :: "string \<Rightarrow> string \<Rightarrow> bool" where
  "str_in k [] = (k = [])"
| "str_in k (c # cs) = (startswith (c # cs) k \<or> str_in k cs)"

text \<open>\<^verbatim>\<open>s.split('@')[0]\<close>: the text before the first \<^verbatim>\<open>@\<close>, all of \<open>s\<close> when it has none.\<close>

definition split_at_head :: "string \<Rightarrow> string" where
  "split_at_head s = takeWhile (\<lambda>c. c \<noteq> CHR ''@'') s"

subsection \<open>\<^verbatim>\<open>_validate_upi_format\<close>\<close>

text \<open>
  \<^verbatim>\<open>re.match(r'^[a-zA-Z0-9.\-_]{3,}@[a-zA-Z]{3,}$', upi_id)\<close>. Neither class holds
  \<^verbatim>\<open>@\<close>, and the second class is followed by the end anchor, so the match is
  deterministic: the longest run of local characters, then \<^verbatim>\<open>@\<close>, then the longest
  run of letters, then \<^verbatim>\<open>$\<close>. In Python's \<^verbatim>\<open>re\<close>, without the MULTILINE flag,
  \<^verbatim>\<open>$\<close> matches at the end of the string and also just before a newline that is the
  last character of the string.
\<close>

definition at_dollar :: "string \<Rightarrow> bool" where
  "at_dollar rest = (rest = [] \<or> rest = [CHR 0x0A])"

definition re_match_upi :: "string \<Rightarrow> bool" where
  "re_match_upi s =
     (let local = takeWhile is_local_char s;
          rest = dropWhile is_local_char s
      in 3 \<le> length local \<and>
         (case rest of
            [] \<Rightarrow> False
          | c # after_at \<Rightarrow>
              c = CHR ''@'' \<and>
              (let provider = takeWhile is_alpha after_at;
                   tail = dropWhile is_alpha after_at
               in 3 \<le> length provider \<and> at_dollar tail)))"

definition validate_upi_format :: "string option \<Rightarrow> bool" where
  "validate_upi_format upi_id =
     (case upi_id of
        None \<Rightarrow> False
      | Some s \<Rightarrow> if s = [] then False else re_match_upi s)"

text \<open>
  The pattern as the specification reads it: the whole string is a local part of at
  least three allowed characters, \<^verbatim>\<open>@\<close>, and a provider of at least three letters,
  with nothing before or after.
\<close>

definition upi_fullmatch :: "string \<Rightarrow> bool" where
  "upi_fullmatch s =
     (\<exists>l p. s = l @ [CHR ''@''] @ p \<and>
        3 \<le> length l \<and> list_all is_local_char l \<and>
        3 \<le> length p \<and> list_all is_alpha p)"

subsection \<open>\<^verbatim>\<open>_is_suspicious_upi\<close>\<close>

definition suspicious_keywords :: "string list" where
  "suspicious_keywords =
     [''test'', ''fake'', ''dummy'', ''fraud'', ''scam'', ''123456'', ''admin'', ''temp'']"

text \<open>The loop \<^verbatim>\<open>for keyword in suspicious_keywords: if keyword in upi_lower: return True\<close>.\<close>

fun any_keyword_in :: "string list \<Rightarrow> string \<Rightarrow> bool" where
  "any_keyword_in [] s = False"
| "any_keyword_in (k # ks) s = (if str_in k s then True else any_keyword_in ks s)"

definition count_digits :: "string \<Rightarrow> nat" where
  \<comment> \<open>\<^verbatim>\<open>sum(c.isdigit() for c in username)\<close>\<close>
  "count_digits u = length (filter isdigit u)"

definition is_suspicious_upi :: "string option \<Rightarrow> bool" where
  "is_suspicious_upi upi_id =
     (case upi_id of
        None \<Rightarrow> True
      | Some s \<Rightarrow>
          if s = [] then True
          else
            let upi_lower = lower s in
            if any_keyword_in suspicious_keywords upi_lower then True
            else
              let username = split_at_head s in
              if 0 < length username \<and>
                 (of_nat (count_digits username) :: rat) / of_nat (length username) > 0.7
              then True
              else if length username < 3 then True
              else False)"

subsection \<open>The verdict dictionary\<close>

text \<open>
  The reasons the scorer appends, one constructor per message of the source:
  \<^item> \<open>HighAmount\<close>: "High transaction amount (>50,000)";
  \<^item> \<open>ExtremelyHighAmount\<close>: "Extremely high amount (>1,00,000)";
  \<^item> \<open>UnusualTime h\<close>: "Unusual transaction time (h:00 hrs)";
  \<^item> \<open>RoundAmount n\<close>: "Round amount (n)", with \<open>n\<close> the value of \<^verbatim>\<open>int(amount)\<close>;
  \<^item> \<open>MissingLocationDevice\<close>: "Missing or invalid location/device data";
  \<^item> \<open>SelfTransfer\<close>: "Self-transfer detected (same UPI IDs)";
  \<^item> \<open>InvalidSenderFormat\<close>, \<open>InvalidReceiverFormat\<close>: "Invalid sender UPI format",
    "Invalid receiver UPI format";
  \<^item> \<open>SuspiciousPattern\<close>: "Suspicious UPI pattern detected";
  \<^item> \<open>SmallAmountPattern\<close>: "Small amount transaction pattern";
  \<^item> \<open>UnusualPrecision\<close>: "Unusual amount precision".
\<close>

datatype reason =
    HighAmount
  | ExtremelyHighAmount
  | UnusualTime nat
  | RoundAmount int
  | MissingLocationDevice
  | SelfTransfer
  | InvalidSenderFormat
  | InvalidReceiverFormat
  | SuspiciousPattern
  | SmallAmountPattern
  | UnusualPrecision

datatype pyvalue = PyBool bool | PyFloat rat | PyStr string | PyList "reason list"

text \<open>A verdict is a Python dict: a key that the source does not write is absent.\<close>

type_synonym verdict = "string \<rightharpoonup> pyvalue"

subsection \<open>\<^verbatim>\<open>rule_based_detection\<close>\<close>

text \<open>
  \<^verbatim>\<open>amount % m\<close> on floats with a positive \<open>m\<close>, and \<^verbatim>\<open>int(amount)\<close>, which
  truncates towards zero.
\<close>

definition py_mod :: "rat \<Rightarrow> rat \<Rightarrow> rat" where
  "py_mod a m = a - m * of_int \<lfloor>a / m\<rfloor>"

definition py_int :: "rat \<Rightarrow> int" where
  "py_int a = (if 0 \<le> a then \<lfloor>a\<rfloor> else \<lceil>a\<rceil>)"

text \<open>
  \<^verbatim>\<open>str(amount).split('.')[-1]\<close>. Below \<open>10^16\<close> Python prints a float in positional
  notation, with at least one digit after the point and no trailing zero: \<^verbatim>\<open>'0'\<close>
  for a whole number, else the digits of the fractional part. \<open>frac_digits\<close> produces
  these digits (at most 17, the longest a double prints). From \<open>10^16\<close> on the text is in
  exponent notation (\<^verbatim>\<open>'1.5e+16'\<close>, \<^verbatim>\<open>'1e+16'\<close>), so the last piece ends in
  \<^verbatim>\<open>e+NN\<close> and is none of the four texts the source compares with. The source
  reaches this test only with \<open>amount > 1000\<close>.
\<close>

definition digit_char :: "nat \<Rightarrow> char" where
  "digit_char d = ''0123456789'' ! (d mod 10)"

fun frac_digits :: "nat \<Rightarrow> rat \<Rightarrow> string" where
  "frac_digits 0 r = []"
| "frac_digits (Suc n) r =
     (if r = 0 then []
      else digit_char (nat \<lfloor>r * 10\<rfloor>) # frac_digits n (r * 10 - of_int \<lfloor>r * 10\<rfloor>))"

definition str_suffix :: "rat \<Rightarrow> string" where
  "str_suffix a = (if frac \<bar>a\<bar> = 0 then ''0'' else frac_digits 17 (frac \<bar>a\<bar>))"

definition suffix_is_usual :: "rat \<Rightarrow> bool" where
  \<comment> \<open>\<^verbatim>\<open>str(amount).split('.')[-1] in ['0', '00', '5', '50']\<close>\<close>
  "suffix_is_usual a =
     (if 10 ^ 16 \<le> \<bar>a\<bar> then False
      else str_suffix a \<in> set [''0'', ''00'', ''5'', ''50''])"

definition location_sentinels :: "string list" where
  "location_sentinels = [''Location unavailable'', ''Geolocation not supported'', ''Unknown'']"

text \<open>
  The running state of the scorer is the pair of \<^verbatim>\<open>fraud_score\<close> and
  \<^verbatim>\<open>reasons\<close>. \<open>bump w\<close> is \<^verbatim>\<open>fraud_score += w\<close>, \<open>say r\<close> is
  \<^verbatim>\<open>reasons.append(r)\<close>.
\<close>

type_synonym scoring = "rat \<times> reason list"

definition bump :: "rat \<Rightarrow> scoring \<Rightarrow> scoring" where
  "bump w st = (fst st + w, snd st)"

definition say :: "reason \<Rightarrow> scoring \<Rightarrow> scoring" where
  "say r st = (fst st, snd st @ [r])"

definition rule_amount :: "rat \<Rightarrow> scoring \<Rightarrow> scoring" where
  \<comment> \<open>Rule 1: an \<^verbatim>\<open>if\<close> with an \<^verbatim>\<open>elif\<close>\<close>
  "rule_amount a st =
     (if a > 50000 then say HighAmount (bump 0.3 st)
      else if a > 100000 then say ExtremelyHighAmount (bump 0.5 st)
      else st)"

definition rule_time :: "nat \<Rightarrow> scoring \<Rightarrow> scoring" where
  "rule_time h st =
     (if h < 6 \<or> h > 22 then say (UnusualTime h) (bump 0.2 st) else st)"

definition rule_round :: "rat \<Rightarrow> scoring \<Rightarrow> scoring" where
  "rule_round a st =
     (if py_mod a 1000 = 0 \<and> a > 10000 then say (RoundAmount (py_int a)) (bump 0.15 st)
      else st)"

definition rule_missing :: "transaction \<Rightarrow> scoring \<Rightarrow> scoring" where
  "rule_missing t st =
     (if falsy (device_id t) \<or> falsy (location t) \<or>
         location t \<in> set (map Some location_sentinels)
      then say MissingLocationDevice (bump 0.35 st)
      else st)"

definition rule_self :: "transaction \<Rightarrow> scoring \<Rightarrow> scoring" where
  "rule_self t st =
     (if sender_upi t = receiver_upi t then say SelfTransfer (bump 0.6 st) else st)"

definition rule_invalid :: "transaction \<Rightarrow> scoring \<Rightarrow> scoring" where
  "rule_invalid t st =
     (let sender_valid = validate_upi_format (sender_upi t);
          receiver_valid = validate_upi_format (receiver_upi t)
      in if \<not> sender_valid \<or> \<not> receiver_valid then
           (let st1 = bump 0.5 st;
                st2 = (if \<not> sender_valid then say InvalidSenderFormat st1 else st1)
            in if \<not> receiver_valid then say InvalidReceiverFormat st2 else st2)
         else st)"

definition rule_suspicious :: "transaction \<Rightarrow> scoring \<Rightarrow> scoring" where
  "rule_suspicious t st =
     (if is_suspicious_upi (sender_upi t) \<or> is_suspicious_upi (receiver_upi t)
      then say SuspiciousPattern (bump 0.25 st)
      else st)"

definition rule_small :: "rat \<Rightarrow> scoring \<Rightarrow> scoring" where
  "rule_small a st =
     (if 100 \<le> a \<and> a \<le> 500 then say SmallAmountPattern (bump 0.1 st) else st)"

definition rule_precision :: "rat \<Rightarrow> scoring \<Rightarrow> scoring" where
  "rule_precision a st =
     (if a > 1000 \<and> \<not> (py_mod a 10 = 0) then
        (if \<not> suffix_is_usual a then say UnusualPrecision (bump 0.1 st) else st)
      else st)"

text \<open>The nine rules in the order of the source, from \<open>fraud_score = 0.0\<close>, \<open>reasons = []\<close>.\<close>

definition score_rules :: "rat \<Rightarrow> transaction \<Rightarrow> scoring" where
  "score_rules a t =
     (let st = (0, []);
          st = rule_amount a st;
          st = rule_time (hour (created_at t)) st;
          st = rule_round a st;
          st = rule_missing t st;
          st = rule_self t st;
          st = rule_invalid t st;
          st = rule_suspicious t st;
          st = rule_small a st;
          st = rule_precision a st
      in st)"

text \<open>
  \<open>now\<close> is the text of \<^verbatim>\<open>datetime.now().isoformat()\<close>, read from the clock by the
  source and a parameter here.
\<close>

definition rule_based_detection :: "string \<Rightarrow> transaction \<Rightarrow> error + verdict" where
  "rule_based_detection now t =
     (case float_of (amount t) of
        Inl e \<Rightarrow> Inl e
      | Inr a \<Rightarrow>
          (let fraud_score = fst (score_rules a t);
               reasons = snd (score_rules a t);
               is_fraud = (fraud_score > 0.5)
           in Inr [''is_fraud'' \<mapsto> PyBool is_fraud,
                   ''fraud_probability'' \<mapsto> PyFloat (min fraud_score 1.0),
                   ''detection_method'' \<mapsto> PyStr ''rule_based'',
                   ''reasons'' \<mapsto> PyList reasons,
                   ''timestamp'' \<mapsto> PyStr now]))"

subsection \<open>\<^verbatim>\<open>extract_features\<close>\<close>

definition type_encoding :: "(string \<times> rat) list" where
  "type_encoding = [(''SEND'', 0), (''RECEIVE'', 1), (''REQUEST'', 2)]"

definition type_code :: "string \<Rightarrow> rat" where
  \<comment> \<open>\<^verbatim>\<open>type_encoding.get(transaction.transaction_type, 0)\<close>\<close>
  "type_code ty = (case map_of type_encoding ty of None \<Rightarrow> 0 | Some v \<Rightarrow> v)"

definition py_len :: "string option \<Rightarrow> error + nat" where
  \<comment> \<open>\<^verbatim>\<open>len(x)\<close>: a \<^verbatim>\<open>TypeError\<close> on \<^verbatim>\<open>None\<close>\<close>
  "py_len x = (case x of None \<Rightarrow> Inl TypeError | Some s \<Rightarrow> Inr (length s))"

text \<open>
  The padding loop \<^verbatim>\<open>while len(features) < 64\<close>; \<open>h\<close> is the variable
  \<^verbatim>\<open>hour\<close> of the source, which holds \<^verbatim>\<open>created_at.hour / 23.0\<close> by then.
\<close>

function pad_features :: "rat \<Rightarrow> rat \<Rightarrow> rat list \<Rightarrow> rat list" where
  "pad_features a h features =
     (if length features < 64 then
        (if length features < 16
         then pad_features a h (features @ [if length features = 8 then a * h else 0])
         else pad_features a h (features @ [0]))
      else features)"
  by pat_completeness auto
termination
  by (relation "measure (\<lambda>(a, h, features). 64 - length features)") auto

declare pad_features.simps [simp del]

text \<open>
  The result is the array of the 64 values in row-major order; the source reshapes it to
  \<^verbatim>\<open>(1, 8, 8, 1)\<close>, which keeps the values and their order.
\<close>

definition extract_features :: "transaction \<Rightarrow> error + rat list" where
  "extract_features t =
     (case float_of (amount t) of
        Inl e \<Rightarrow> Inl e
      | Inr a \<Rightarrow>
          (let features = [a / 100000];
               features = features @ [type_code (transaction_type t) / 2];
               h = of_nat (hour (created_at t)) / 23;
               day_of_week = of_nat (weekday (created_at t)) / 6;
               features = features @ [h, day_of_week]
           in case py_len (sender_upi t) of
                Inl e \<Rightarrow> Inl e
              | Inr sender_len \<Rightarrow>
                  (case py_len (receiver_upi t) of
                     Inl e \<Rightarrow> Inl e
                   | Inr receiver_len \<Rightarrow>
                       (let features =
                              features @ [of_nat sender_len / 100, of_nat receiver_len / 100];
                            has_location = (if truthy (location t) then 1 else 0);
                            features = features @ [has_location];
                            has_device = (if truthy (device_id t) then 1 else 0);
                            features = features @ [has_device];
                            features = pad_features a h features
                        in Inr (take 64 features)))))"

subsection \<open>The model, \<^verbatim>\<open>load_model\<close> and \<^verbatim>\<open>predict\<close>\<close>

text \<open>
  The class \<^verbatim>\<open>FraudDetectionCNN\<close> lives in \<^verbatim>\<open>cnn_model.py\<close>, outside the files
  at hand, so a loaded model is a parameter: whether its inner \<^verbatim>\<open>model\<close> attribute is
  set, and what \<^verbatim>\<open>float(self.model.predict(features)[0][0])\<close> gives for a feature
  array (a probability, or an exception).
\<close>

record cnn =
  inner_model_set :: bool
  cnn_predict :: "rat list \<Rightarrow> error + rat"

record detector =
  model :: "cnn option"

text \<open>
  What \<^verbatim>\<open>load_model\<close> reads from its surroundings: the two settings (absent when the
  attribute lookup on \<^verbatim>\<open>settings\<close> raises), \<^verbatim>\<open>os.path.exists\<close>, and the outcome
  of \<^verbatim>\<open>FraudDetectionCNN().load_model(model_path, scaler_path)\<close>.
\<close>

record environment =
  ML_MODEL_PATH :: "string option"
  SCALER_PATH :: "string option"
  path_exists :: "string \<Rightarrow> bool"
  cnn_load_model :: "string \<Rightarrow> string \<Rightarrow> error + cnn"

definition load_model :: "environment \<Rightarrow> detector \<Rightarrow> detector" where
  "load_model env self =
     (case ML_MODEL_PATH env of
        None \<Rightarrow> self\<lparr>model := None\<rparr>
      | Some model_path \<Rightarrow>
          (case SCALER_PATH env of
             None \<Rightarrow> self\<lparr>model := None\<rparr>
           | Some scaler_path \<Rightarrow>
               if path_exists env model_path \<and> path_exists env scaler_path then
                 (case cnn_load_model env model_path scaler_path of
                    Inl e \<Rightarrow> self\<lparr>model := None\<rparr>
                  | Inr loaded \<Rightarrow> self\<lparr>model := Some loaded\<rparr>)
               else self\<lparr>model := None\<rparr>))"

definition init :: "environment \<Rightarrow> detector" where
  \<comment> \<open>\<^verbatim>\<open>__init__\<close>: \<^verbatim>\<open>self.model = None; self.load_model()\<close>\<close>
  "init env = load_model env \<lparr>model = None\<rparr>"

text \<open>\<^verbatim>\<open>try: body except Exception: handler\<close> on results.\<close>

definition try_except :: "error + 'a \<Rightarrow> (error \<Rightarrow> error + 'a) \<Rightarrow> error + 'a" where
  "try_except body handler = (case body of Inl e \<Rightarrow> handler e | Inr v \<Rightarrow> Inr v)"

definition cnn_verdict :: "string \<Rightarrow> rat \<Rightarrow> verdict" where
  "cnn_verdict now probability =
     (let is_fraud = (probability > 0.5)
      in [''is_fraud'' \<mapsto> PyBool is_fraud,
          ''fraud_probability'' \<mapsto> PyFloat probability,
          ''detection_method'' \<mapsto> PyStr ''cnn_model'',
          ''confidence'' \<mapsto> PyFloat (\<bar>probability - 0.5\<bar> * 2),
          ''timestamp'' \<mapsto> PyStr now])"

definition predict_body :: "string \<Rightarrow> detector \<Rightarrow> transaction \<Rightarrow> error + verdict" where
  \<comment> \<open>the body of the \<^verbatim>\<open>try\<close>; its test is
      \<^verbatim>\<open>self.model is not None and self.model.model is not None\<close>\<close>
  "predict_body now self t =
     (case model self of
        None \<Rightarrow> rule_based_detection now t
      | Some c \<Rightarrow>
          if inner_model_set c then
            (case extract_features t of
               Inl e \<Rightarrow> Inl e
             | Inr features \<Rightarrow>
                 (case cnn_predict c features of
                    Inl e \<Rightarrow> Inl e
                  | Inr probability \<Rightarrow> Inr (cnn_verdict now probability)))
          else rule_based_detection now t)"

definition predict :: "string \<Rightarrow> detector \<Rightarrow> transaction \<Rightarrow> error + verdict" where
  "predict now self t =
     try_except (predict_body now self t) (\<lambda>e. rule_based_detection now t)"

text \<open>
  A detector serving a sequence of requests. \<^verbatim>\<open>predict\<close> assigns to no attribute of
  \<^verbatim>\<open>self\<close> and calls \<^verbatim>\<open>load_model\<close> nowhere, so each step hands on the detector
  it was given.
\<close>

definition predict_step ::
  "detector \<Rightarrow> string \<times> transaction \<Rightarrow> (error + verdict) \<times> detector" where
  "predict_step self req = (predict (fst req) self (snd req), self)"

fun serve ::
  "detector \<Rightarrow> (string \<times> transaction) list \<Rightarrow> (error + verdict) list \<times> detector" where
  "serve self [] = ([], self)"
| "serve self (req # reqs) =
     (let (r, self1) = predict_step self req;
          (rs, self2) = serve self1 reqs
      in (r # rs, self2))"

subsection \<open>The statements of the specification, for comparison\<close>

text \<open>
  \<^verbatim>\<open>is_suspicious\<close> as the specification words it: the denylist, the digit fraction
  and the length are all read on the local part, the text before \<^verbatim>\<open>@\<close>.
\<close>

definition spec_is_suspicious :: "string \<Rightarrow> bool" where
  "spec_is_suspicious s =
     (let local_part = split_at_head s in
      s = [] \<or>
      list_ex (\<lambda>k. str_in k (lower local_part)) suspicious_keywords \<or>
      (0 < length local_part \<and>
       (of_nat (count_digits local_part) :: rat) / of_nat (length local_part) > 0.7) \<or>
      length local_part < 3)"

text \<open>
  The rules of the scorer as a table, in the order the source declares them: for each
  rule the condition under which the source runs its body, the weight the body adds to
  \<^verbatim>\<open>fraud_score\<close>, and the reasons the body appends. The second rule is the
  \<^verbatim>\<open>elif\<close> branch of the first: its body runs when the first condition is false and
  its own is true.
\<close>

datatype rule =
    HighAmountRule
  | ExtremelyHighAmountRule
  | OddHoursRule
  | RoundAmountRule
  | MissingContextRule
  | SelfTransferRule
  | InvalidAddressRule
  | SuspiciousAddressRule
  | SmallAmountRule
  | UnusualPrecisionRule

definition rule_order :: "rule list" where
  "rule_order =
     [HighAmountRule, ExtremelyHighAmountRule, OddHoursRule, RoundAmountRule,
      MissingContextRule, SelfTransferRule, InvalidAddressRule, SuspiciousAddressRule,
      SmallAmountRule, UnusualPrecisionRule]"

definition weight :: "rule \<Rightarrow> rat" where
  "weight r =
     (case r of
        HighAmountRule \<Rightarrow> 0.3
      | ExtremelyHighAmountRule \<Rightarrow> 0.5
      | OddHoursRule \<Rightarrow> 0.2
      | RoundAmountRule \<Rightarrow> 0.15
      | MissingContextRule \<Rightarrow> 0.35
      | SelfTransferRule \<Rightarrow> 0.6
      | InvalidAddressRule \<Rightarrow> 0.5
      | SuspiciousAddressRule \<Rightarrow> 0.25
      | SmallAmountRule \<Rightarrow> 0.1
      | UnusualPrecisionRule \<Rightarrow> 0.1)"

definition triggered :: "rat \<Rightarrow> transaction \<Rightarrow> rule \<Rightarrow> bool" where
  "triggered a t r =
     (case r of
        HighAmountRule \<Rightarrow> a > 50000
      | ExtremelyHighAmountRule \<Rightarrow> \<not> a > 50000 \<and> a > 100000
      | OddHoursRule \<Rightarrow> hour (created_at t) < 6 \<or> hour (created_at t) > 22
      | RoundAmountRule \<Rightarrow> py_mod a 1000 = 0 \<and> a > 10000
      | MissingContextRule \<Rightarrow>
          falsy (device_id t) \<or> falsy (location t) \<or>
          location t \<in> set (map Some location_sentinels)
      | SelfTransferRule \<Rightarrow> sender_upi t = receiver_upi t
      | InvalidAddressRule \<Rightarrow>
          \<not> (validate_upi_format (sender_upi t) \<and> validate_upi_format (receiver_upi t))
      | SuspiciousAddressRule \<Rightarrow>
          is_suspicious_upi (sender_upi t) \<or> is_suspicious_upi (receiver_upi t)
      | SmallAmountRule \<Rightarrow> 100 \<le> a \<and> a \<le> 500
      | UnusualPrecisionRule \<Rightarrow>
          a > 1000 \<and> \<not> (py_mod a 10 = 0) \<and> \<not> suffix_is_usual a)"

definition rule_reasons :: "rat \<Rightarrow> transaction \<Rightarrow> rule \<Rightarrow> reason list" where
  "rule_reasons a t r =
     (case r of
        HighAmountRule \<Rightarrow> [HighAmount]
      | ExtremelyHighAmountRule \<Rightarrow> [ExtremelyHighAmount]
      | OddHoursRule \<Rightarrow> [UnusualTime (hour (created_at t))]
      | RoundAmountRule \<Rightarrow> [RoundAmount (py_int a)]
      | MissingContextRule \<Rightarrow> [MissingLocationDevice]
      | SelfTransferRule \<Rightarrow> [SelfTransfer]
      | InvalidAddressRule \<Rightarrow>
          (if validate_upi_format (sender_upi t) then [] else [InvalidSenderFormat]) @
          (if validate_upi_format (receiver_upi t) then [] else [InvalidReceiverFormat])
      | SuspiciousAddressRule \<Rightarrow> [SuspiciousPattern]
      | SmallAmountRule \<Rightarrow> [SmallAmountPattern]
      | UnusualPrecisionRule \<Rightarrow> [UnusualPrecision])"

text \<open>What a list of rules adds to the score and to the reasons.\<close>

definition contribution :: "rat \<Rightarrow> transaction \<Rightarrow> rule list \<Rightarrow> scoring" where
  "contribution a t rs =
     (sum_list (map weight (filter (triggered a t) rs)),
      concat (map (rule_reasons a t) (filter (triggered a t) rs)))"

definition combine :: "scoring \<Rightarrow> scoring \<Rightarrow> scoring" where
  "combine st c = (fst st + fst c, snd st @ snd c)"

text \<open>What the padding loop appends at index \<open>i\<close>.\<close>

definition filler :: "rat \<Rightarrow> rat \<Rightarrow> nat \<Rightarrow> rat" where
  "filler a h i = (if i = 8 then a * h else 0)"

subsection \<open>Sample inputs\<close>

text \<open>
  The transaction of the specification's examples: hour 2, a device id, a location that
  is no sentinel, two distinct valid addresses that are not suspicious.
\<close>

definition sample_transaction :: "amount_field \<Rightarrow> transaction" where
  "sample_transaction x =
     \<lparr>amount = x,
      transaction_type = ''SEND'',
      sender_upi = Some ''ravi.kumar@icici'',
      receiver_upi = Some ''john@paytm'',
      created_at = \<lparr>hour = 2, weekday = 0\<rparr>,
      device_id = Some ''device-1'',
      location = Some ''Mumbai''\<rparr>"

definition sample_now :: string where
  "sample_now = ''2024-01-01T02:00:00''"

text \<open>A loaded model that answers every feature array with the probability \<open>p\<close>.\<close>

definition constant_cnn :: "rat \<Rightarrow> cnn" where
  "constant_cnn p = \<lparr>inner_model_set = True, cnn_predict = (\<lambda>features. Inr p)\<rparr>"

text \<open>A loaded model whose inference raises.\<close>

definition failing_cnn :: cnn where
  "failing_cnn = \<lparr>inner_model_set = True, cnn_predict = (\<lambda>features. Inl InferenceError)\<rparr>"

text \<open>Surroundings in which no model file exists.\<close>

definition bare_environment :: environment where
  "bare_environment =
     \<lparr>ML_MODEL_PATH = Some ''fraud_model.h5'',
      SCALER_PATH = Some ''scaler.pkl'',
      path_exists = (\<lambda>p. False),
      cnn_load_model = (\<lambda>m s. Inr (constant_cnn 0.9))\<rparr>"

definition artifacts_present :: "environment \<Rightarrow> bool" where
  \<comment> \<open>both settings are there and both files exist\<close>
  "artifacts_present env =
     (case ML_MODEL_PATH env of
        None \<Rightarrow> False
      | Some model_path \<Rightarrow>
          (case SCALER_PATH env of
             None \<Rightarrow> False
           | Some scaler_path \<Rightarrow> path_exists env model_path \<and> path_exists env scaler_path))"

section \<open>Address validation\<close>

lemmas char_class_defs =
  is_local_char_def is_alpha_def is_class_digit_def lowercase_letters_def
  uppercase_letters_def

lemma not_local_at: "\<not> is_local_char (CHR ''@'')"
  by (simp add: char_class_defs)

lemma not_alpha_newline: "\<not> is_alpha (CHR 0x0A)"
  by (simp add: char_class_defs)

lemma upi_fullmatch_last: "upi_fullmatch s \<Longrightarrow> s \<noteq> [] \<and> is_alpha (last s)"
  unfolding upi_fullmatch_def
  by (auto simp: list_all_iff)

lemma fullmatch_re_match:
  assumes "upi_fullmatch w" and "at_dollar rst"
  shows "re_match_upi (w @ rst)"
proof -
  from assms(1) obtain l p where w: "w = l @ [CHR ''@''] @ p"
    and l: "3 \<le> length l" "list_all is_local_char l"
    and p: "3 \<le> length p" "list_all is_alpha p"
    unfolding upi_fullmatch_def by blast
  have tw: "takeWhile is_local_char (w @ rst) = l"
    using l(2) not_local_at by (simp add: w list_all_iff)
  have dw: "dropWhile is_local_char (w @ rst) = CHR ''@'' # p @ rst"
    using l(2) not_local_at by (simp add: w list_all_iff)
  have cases_rst: "rst = [] \<or> rst = [CHR 0x0A]"
    using assms(2) by (simp add: at_dollar_def)
  have tp: "takeWhile is_alpha (p @ rst) = p"
    using p(2) cases_rst not_alpha_newline by (auto simp: list_all_iff)
  have dp: "dropWhile is_alpha (p @ rst) = rst"
    using p(2) cases_rst not_alpha_newline by (auto simp: list_all_iff)
  show ?thesis
    using l(1) p(1) assms(2) by (simp add: re_match_upi_def tw dw tp dp Let_def)
qed

lemma re_match_fullmatch:
  assumes "re_match_upi s"
  shows "\<exists>w rst. s = w @ rst \<and> upi_fullmatch w \<and> at_dollar rst"
proof -
  define l where "l = takeWhile is_local_char s"
  define rest where "rest = dropWhile is_local_char s"
  have s: "s = l @ rest" by (simp add: l_def rest_def)
  from assms obtain after_at where rest: "rest = CHR ''@'' # after_at"
    and l3: "3 \<le> length l"
    and p3: "3 \<le> length (takeWhile is_alpha after_at)"
    and dollar: "at_dollar (dropWhile is_alpha after_at)"
    unfolding re_match_upi_def l_def rest_def
    by (auto simp: Let_def split: list.splits)
  define p where "p = takeWhile is_alpha after_at"
  define rst where "rst = dropWhile is_alpha after_at"
  have after: "after_at = p @ rst" by (simp add: p_def rst_def)
  have "list_all is_local_char l"
    unfolding l_def list_all_iff by (auto dest: set_takeWhileD)
  moreover have "list_all is_alpha p"
    unfolding p_def list_all_iff by (auto dest: set_takeWhileD)
  ultimately have "upi_fullmatch (l @ [CHR ''@''] @ p)"
    unfolding upi_fullmatch_def using l3 p3 p_def by blast
  moreover have "s = (l @ [CHR ''@''] @ p) @ rst" by (simp add: s rest after)
  ultimately show ?thesis using dollar rst_def by blast
qed

text \<open>
  What the source's \<^verbatim>\<open>re.match\<close> accepts: the strings of the pattern, and those
  strings followed by one newline.
\<close>

lemma re_match_upi_iff:
  "re_match_upi s = (upi_fullmatch s \<or> (\<exists>w. s = w @ [CHR 0x0A] \<and> upi_fullmatch w))"
proof
  assume "re_match_upi s"
  then obtain w rst where "s = w @ rst" "upi_fullmatch w" "at_dollar rst"
    using re_match_fullmatch by blast
  then show "upi_fullmatch s \<or> (\<exists>w. s = w @ [CHR 0x0A] \<and> upi_fullmatch w)"
    by (auto simp: at_dollar_def)
next
  assume "upi_fullmatch s \<or> (\<exists>w. s = w @ [CHR 0x0A] \<and> upi_fullmatch w)"
  then show "re_match_upi s"
  proof
    assume "upi_fullmatch s"
    then have "re_match_upi (s @ [])"
      by (rule fullmatch_re_match) (simp add: at_dollar_def)
    then show ?thesis by simp
  next
    assume "\<exists>w. s = w @ [CHR 0x0A] \<and> upi_fullmatch w"
    then obtain w where "s = w @ [CHR 0x0A]" "upi_fullmatch w" by blast
    then show ?thesis
      using fullmatch_re_match[of w "[CHR 0x0A]"] by (simp add: at_dollar_def)
  qed
qed

lemma validate_upi_format_iff:
  "validate_upi_format (Some s) =
     (upi_fullmatch s \<or> (\<exists>w. s = w @ [CHR 0x0A] \<and> upi_fullmatch w))"
  using upi_fullmatch_last[of s]
  by (auto simp: validate_upi_format_def re_match_upi_iff)

text \<open>
  Claim C6. \<^verbatim>\<open>validate\<close> is false on an absent or empty address, true on
  \<^verbatim>\<open>john@paytm\<close>, false on \<^verbatim>\<open>jo@paytm\<close> and on \<^verbatim>\<open>john@pt\<close>. The claim
  also says that it accepts a string only when the whole string matches the pattern with
  no extra character; the source accepts \<^verbatim>\<open>john@paytm\<close> followed by a newline, which
  does not match the pattern as a whole.
\<close>

theorem validate_upi_format_trailing_newline:
  "validate_upi_format (Some (''john@paytm'' @ [CHR 0x0A])) \<and>
   \<not> upi_fullmatch (''john@paytm'' @ [CHR 0x0A]) \<and>
   validate_upi_format (Some ''john@paytm'') \<and>
   \<not> validate_upi_format (Some ''jo@paytm'') \<and>
   \<not> validate_upi_format (Some ''john@pt'') \<and>
   \<not> validate_upi_format None \<and>
   \<not> validate_upi_format (Some [])"
proof -
  have "\<not> upi_fullmatch (''john@paytm'' @ [CHR 0x0A])"
    using upi_fullmatch_last[of "''john@paytm'' @ [CHR 0x0A]"] not_alpha_newline by auto
  moreover have "validate_upi_format (Some (''john@paytm'' @ [CHR 0x0A]))"
    by (simp add: validate_upi_format_def re_match_upi_def at_dollar_def char_class_defs)
  moreover have "validate_upi_format (Some ''john@paytm'')"
    by (simp add: validate_upi_format_def re_match_upi_def at_dollar_def char_class_defs)
  moreover have "\<not> validate_upi_format (Some ''jo@paytm'')"
    by (simp add: validate_upi_format_def re_match_upi_def at_dollar_def char_class_defs)
  moreover have "\<not> validate_upi_format (Some ''john@pt'')"
    by (simp add: validate_upi_format_def re_match_upi_def at_dollar_def char_class_defs)
  ultimately show ?thesis
    by (simp add: validate_upi_format_def)
qed

section \<open>Suspicious addresses\<close>

lemma startswith_iff: "startswith s k = (\<exists>ss. s = k @ ss)"
  by (induction s k rule: startswith.induct) auto

lemma str_in_iff: "str_in k s = (\<exists>ps ss. s = ps @ k @ ss)"
proof (induction s)
  case Nil
  then show ?case by auto
next
  case (Cons c cs)
  have "(\<exists>ps ss. c # cs = ps @ k @ ss) =
        ((\<exists>ss. c # cs = k @ ss) \<or> (\<exists>ps ss. cs = ps @ k @ ss))"
  proof
    assume "\<exists>ps ss. c # cs = ps @ k @ ss"
    then obtain ps ss where e: "c # cs = ps @ k @ ss" by blast
    show "(\<exists>ss. c # cs = k @ ss) \<or> (\<exists>ps ss. cs = ps @ k @ ss)"
    proof (cases ps)
      case Nil
      with e show ?thesis by auto
    next
      case (Cons q qs)
      with e have "cs = qs @ k @ ss" by simp
      then show ?thesis by blast
    qed
  next
    assume "(\<exists>ss. c # cs = k @ ss) \<or> (\<exists>ps ss. cs = ps @ k @ ss)"
    then show "\<exists>ps ss. c # cs = ps @ k @ ss"
    proof
      assume "\<exists>ss. c # cs = k @ ss"
      then obtain ss where "c # cs = [] @ k @ ss" by auto
      then show ?thesis by blast
    next
      assume "\<exists>ps ss. cs = ps @ k @ ss"
      then obtain ps ss where "c # cs = (c # ps) @ k @ ss" by auto
      then show ?thesis by blast
    qed
  qed
  with Cons show ?case by (simp add: startswith_iff)
qed

lemma any_keyword_in_iff: "any_keyword_in ks s = (\<exists>k\<in>set ks. str_in k s)"
  by (induction ks) auto

lemmas string_eval_defs =
  lower_def lower_char_def split_at_head_def count_digits_def suspicious_keywords_def
  isdigit_def superscript_digits_def latin1_uppercase_def latin1_lowercase_def
  char_class_defs

lemma admin123_suspicious: "is_suspicious_upi (Some ''admin123@ybl'')"
  by (simp add: is_suspicious_upi_def string_eval_defs)

lemma ravi_kumar_not_suspicious: "\<not> is_suspicious_upi (Some ''ravi.kumar@icici'')"
  by (simp add: is_suspicious_upi_def string_eval_defs)

lemma john_not_suspicious: "\<not> is_suspicious_upi (Some ''john@paytm'')"
  by (simp add: is_suspicious_upi_def string_eval_defs)

text \<open>
  Claim C5, as stated, fails: the address \<^verbatim>\<open>ravi@testbank\<close> has a local part that is
  neither on the denylist, nor mostly digits, nor short, and the denylist word
  \<^verbatim>\<open>test\<close> occurs in its provider part only; the source calls it suspicious.
\<close>

theorem is_suspicious_upi_provider_counterexample:
  "is_suspicious_upi (Some ''ravi@testbank'') \<and> \<not> spec_is_suspicious ''ravi@testbank''"
  by (simp add: is_suspicious_upi_def spec_is_suspicious_def string_eval_defs)

text \<open>Python's two string methods on sample code points.\<close>

lemma lower_samples:
  "lower ''AZaz09@._-'' = ''azaz09@._-'' \<and>
   lower [CHR 0xC0, CHR 0xD6, CHR 0xD7, CHR 0xDE, CHR 0xDF, CHR 0xB5, CHR 0xFF]
     = [CHR 0xE0, CHR 0xF6, CHR 0xD7, CHR 0xFE, CHR 0xDF, CHR 0xB5, CHR 0xFF]"
  by (simp add: string_eval_defs)

lemma isdigit_samples:
  "isdigit (CHR ''0'') \<and> isdigit (CHR ''9'') \<and> isdigit (CHR 0xB2) \<and> isdigit (CHR 0xB3) \<and>
   isdigit (CHR 0xB9) \<and> \<not> isdigit (CHR ''a'') \<and> \<not> isdigit (CHR 0xBC) \<and>
   \<not> isdigit (CHR 0xB1)"
  by (simp add: string_eval_defs)

lemma upper_case_keyword_suspicious: "is_suspicious_upi (Some ''RaviTEST@ybl'')"
  by (simp add: is_suspicious_upi_def string_eval_defs)

lemma all_digits_suspicious: "is_suspicious_upi (Some ''98765@paytm'')"
  by (simp add: is_suspicious_upi_def string_eval_defs)

lemma seven_digits_of_ten_not_suspicious: "\<not> is_suspicious_upi (Some ''9876543abc@paytm'')"
  by (simp add: is_suspicious_upi_def string_eval_defs)

lemma eight_digits_of_ten_suspicious: "is_suspicious_upi (Some ''98765432ab@paytm'')"
  by (simp add: is_suspicious_upi_def string_eval_defs)

lemma superscript_digits_suspicious:
  "is_suspicious_upi (Some ([CHR 0xB2, CHR 0xB3, CHR 0xB9] @ ''@paytm''))"
  by (simp add: is_suspicious_upi_def string_eval_defs)

lemma short_local_part_suspicious: "is_suspicious_upi (Some ''ab@paytm'')"
  by (simp add: is_suspicious_upi_def string_eval_defs)

text \<open>
  Claim C5, amended. \<^verbatim>\<open>is_suspicious\<close> is true exactly when the address is absent or
  empty, or the whole address in lower case (local part, \<^verbatim>\<open>@\<close> and provider) contains
  a denylist word, or more than 0.7 of the characters of the local part are digits in
  the sense of \<^verbatim>\<open>str.isdigit\<close>, or the local part has fewer than 3 characters. It is
  true of \<^verbatim>\<open>admin123@ybl\<close> and false of \<^verbatim>\<open>ravi.kumar@icici\<close>. The further
  instances fix each clause: a denylist word in capitals counts; five digits of five and
  eight of ten are above 0.7, seven of ten are not; the superscript digits count as
  digits; a local part of two characters is short.
\<close>

theorem is_suspicious_upi_whole_address:
  "is_suspicious_upi None \<and>
   (is_suspicious_upi (Some s) \<longleftrightarrow>
      s = [] \<or>
      (\<exists>k\<in>set suspicious_keywords. \<exists>ps ss. lower s = ps @ k @ ss) \<or>
      (0 < length (split_at_head s) \<and>
       (of_nat (count_digits (split_at_head s)) :: rat) / of_nat (length (split_at_head s))
         > 0.7) \<or>
      length (split_at_head s) < 3) \<and>
   is_suspicious_upi (Some ''admin123@ybl'') \<and>
   \<not> is_suspicious_upi (Some ''ravi.kumar@icici'') \<and>
   is_suspicious_upi (Some ''RaviTEST@ybl'') \<and>
   is_suspicious_upi (Some ''98765@paytm'') \<and>
   \<not> is_suspicious_upi (Some ''9876543abc@paytm'') \<and>
   is_suspicious_upi (Some ''98765432ab@paytm'') \<and>
   is_suspicious_upi (Some ([CHR 0xB2, CHR 0xB3, CHR 0xB9] @ ''@paytm'')) \<and>
   is_suspicious_upi (Some ''ab@paytm'') \<and>
   count_digits (''9'' @ [CHR 0xB2, CHR 0xB3, CHR 0xB9] @ ''a.'') = 4 \<and>
   lower ''AdMiN-Z@YBL'' = ''admin-z@ybl''"
proof -
  have general: "is_suspicious_upi (Some s) \<longleftrightarrow>
      s = [] \<or>
      (\<exists>k\<in>set suspicious_keywords. \<exists>ps ss. lower s = ps @ k @ ss) \<or>
      (0 < length (split_at_head s) \<and>
       (of_nat (count_digits (split_at_head s)) :: rat) / of_nat (length (split_at_head s))
         > 0.7) \<or>
      length (split_at_head s) < 3"
    unfolding is_suspicious_upi_def any_keyword_in_iff str_in_iff[symmetric]
    by (auto simp: Let_def)
  have absent: "is_suspicious_upi None"
    by (simp add: is_suspicious_upi_def)
  have digits: "count_digits (''9'' @ [CHR 0xB2, CHR 0xB3, CHR 0xB9] @ ''a.'') = 4"
    by (simp add: string_eval_defs)
  have folded: "lower ''AdMiN-Z@YBL'' = ''admin-z@ybl''"
    by (simp add: string_eval_defs)
  show ?thesis
    using general absent digits folded admin123_suspicious ravi_kumar_not_suspicious
      upper_case_keyword_suspicious all_digits_suspicious
      seven_digits_of_ten_not_suspicious eight_digits_of_ten_suspicious
      superscript_digits_suspicious short_local_part_suspicious
    by (intro conjI) assumption+
qed

section \<open>The rule-based scorer\<close>

lemma contribution_Nil: "contribution a t [] = (0, [])"
  by (simp add: contribution_def)

lemma combine_contribution:
  "combine (contribution a t xs) (contribution a t ys) = contribution a t (xs @ ys)"
  by (simp add: combine_def contribution_def)

lemma contribution_single:
  "contribution a t [r] = (if triggered a t r then (weight r, rule_reasons a t r) else (0, []))"
  by (simp add: contribution_def)

lemma rule_amount_step:
  "rule_amount a st = combine st (contribution a t [HighAmountRule, ExtremelyHighAmountRule])"
  by (simp add: rule_amount_def contribution_def combine_def triggered_def weight_def
      rule_reasons_def say_def bump_def)

lemma rule_time_step:
  "rule_time (hour (created_at t)) st = combine st (contribution a t [OddHoursRule])"
  by (simp add: rule_time_def contribution_def combine_def triggered_def weight_def
      rule_reasons_def say_def bump_def)

lemma rule_round_step:
  "rule_round a st = combine st (contribution a t [RoundAmountRule])"
  by (simp add: rule_round_def contribution_def combine_def triggered_def weight_def
      rule_reasons_def say_def bump_def)

lemma rule_missing_step:
  "rule_missing t st = combine st (contribution a t [MissingContextRule])"
  by (simp add: rule_missing_def contribution_def combine_def triggered_def weight_def
      rule_reasons_def say_def bump_def)

lemma rule_self_step:
  "rule_self t st = combine st (contribution a t [SelfTransferRule])"
  by (simp add: rule_self_def contribution_def combine_def triggered_def weight_def
      rule_reasons_def say_def bump_def)

lemma rule_invalid_step:
  "rule_invalid t st = combine st (contribution a t [InvalidAddressRule])"
  by (simp add: rule_invalid_def contribution_def combine_def triggered_def weight_def
      rule_reasons_def say_def bump_def Let_def)

lemma rule_suspicious_step:
  "rule_suspicious t st = combine st (contribution a t [SuspiciousAddressRule])"
  by (simp add: rule_suspicious_def contribution_def combine_def triggered_def weight_def
      rule_reasons_def say_def bump_def)

lemma rule_small_step:
  "rule_small a st = combine st (contribution a t [SmallAmountRule])"
  by (simp add: rule_small_def contribution_def combine_def triggered_def weight_def
      rule_reasons_def say_def bump_def)

lemma rule_precision_step:
  "rule_precision a st = combine st (contribution a t [UnusualPrecisionRule])"
  by (simp add: rule_precision_def contribution_def combine_def triggered_def weight_def
      rule_reasons_def say_def bump_def)

lemma score_rules_table: "score_rules a t = contribution a t rule_order"
proof -
  have "score_rules a t =
    rule_precision a (rule_small a (rule_suspicious t (rule_invalid t (rule_self t
      (rule_missing t (rule_round a (rule_time (hour (created_at t))
        (rule_amount a (contribution a t [])))))))))"
    by (simp add: score_rules_def Let_def contribution_Nil)
  also have "\<dots> = contribution a t rule_order"
    unfolding rule_amount_step[of a _ t] rule_time_step[of t _ a] rule_round_step[of a _ t]
      rule_missing_step[of t _ a] rule_self_step[of t _ a] rule_invalid_step[of t _ a]
      rule_suspicious_step[of t _ a] rule_small_step[of a _ t] rule_precision_step[of a _ t]
      combine_contribution
    by (simp add: rule_order_def)
  finally show ?thesis .
qed

lemma weight_pos: "0 < weight r"
  by (cases r) (simp_all add: weight_def)

lemma sum_weights_nonneg: "0 \<le> sum_list (map weight rs)"
  by (induction rs) (auto simp: less_imp_le[OF weight_pos] intro: add_nonneg_nonneg)

lemma triggered_reasons_nonempty: "triggered a t r \<Longrightarrow> rule_reasons a t r \<noteq> []"
  by (cases r) (auto simp: triggered_def rule_reasons_def)

lemma score_zero_iff_no_reasons:
  "fst (contribution a t rs) > 0 \<longleftrightarrow> snd (contribution a t rs) \<noteq> []"
proof (induction rs)
  case Nil
  then show ?case by (simp add: contribution_def)
next
  case (Cons r rs)
  have nn: "0 \<le> fst (contribution a t rs)"
    by (simp add: contribution_def sum_weights_nonneg)
  show ?case
  proof (cases "triggered a t r")
    case True
    then have "fst (contribution a t (r # rs)) > 0"
      using nn weight_pos[of r] by (simp add: contribution_def add_pos_nonneg)
    moreover have "snd (contribution a t (r # rs)) \<noteq> []"
      using True triggered_reasons_nonempty[of a t r] by (simp add: contribution_def)
    ultimately show ?thesis by simp
  next
    case False
    then show ?thesis using Cons by (simp add: contribution_def)
  qed
qed

lemma distinct_concat_filter:
  "distinct (concat (map f xs)) \<Longrightarrow> distinct (concat (map f (filter P xs)))"
proof (induction xs)
  case Nil
  then show ?case by simp
next
  case (Cons x xs)
  have sub: "set (concat (map f (filter P xs))) \<subseteq> set (concat (map f xs))"
    by auto
  from Cons show ?case using sub by auto
qed

lemma all_reasons_distinct: "distinct (concat (map (rule_reasons a t) rule_order))"
  by (simp add: rule_order_def rule_reasons_def)

lemma reasons_distinct: "distinct (snd (contribution a t rule_order))"
  unfolding contribution_def snd_conv
  by (rule distinct_concat_filter) (rule all_reasons_distinct)

lemma rule_based_detection_table:
  assumes "float_of (amount t) = Inr a"
  shows "rule_based_detection now t =
    Inr [''is_fraud'' \<mapsto> PyBool (fst (contribution a t rule_order) > 0.5),
         ''fraud_probability'' \<mapsto> PyFloat (min (fst (contribution a t rule_order)) 1),
         ''detection_method'' \<mapsto> PyStr ''rule_based'',
         ''reasons'' \<mapsto> PyList (snd (contribution a t rule_order)),
         ''timestamp'' \<mapsto> PyStr now]"
  using assms by (simp add: rule_based_detection_def score_rules_table Let_def)

text \<open>
  Claim C4. For every transaction whose amount is a number, the verdict of the rule-based
  scorer has \<open>fraud_probability = min (sum of the weights of the triggered rules) 1\<close>,
  which lies between 0 and 1, and \<open>is_fraud\<close> is true exactly when that clamped
  probability exceeds 0.5: the source's test on the unclamped score gives the same.
\<close>

theorem rule_based_probability_clamped_sum:
  assumes "float_of (amount t) = Inr a"
  shows "\<exists>v p. rule_based_detection now t = Inr v \<and>
           v ''fraud_probability'' = Some (PyFloat p) \<and>
           p = min (sum_list (map weight (filter (triggered a t) rule_order))) 1 \<and>
           0 \<le> p \<and> p \<le> 1 \<and>
           v ''is_fraud'' = Some (PyBool (p > 0.5)) \<and>
           v ''detection_method'' = Some (PyStr ''rule_based'')"
proof -
  define total where "total = sum_list (map weight (filter (triggered a t) rule_order))"
  have fst_c: "fst (contribution a t rule_order) = total"
    by (simp add: contribution_def total_def)
  have nn: "0 \<le> total"
    unfolding total_def by (rule sum_weights_nonneg)
  show ?thesis
    unfolding rule_based_detection_table[OF assms] fst_c total_def[symmetric]
    using nn by (auto simp: min_def)
qed

theorem rule_based_probability_clamped_sum_witness:
  "float_of (amount (sample_transaction (Number 75000))) = Inr 75000 \<and>
   (\<exists>v p. rule_based_detection sample_now (sample_transaction (Number 75000)) = Inr v \<and>
           v ''fraud_probability'' = Some (PyFloat p) \<and>
           p = min (sum_list (map weight
                 (filter (triggered 75000 (sample_transaction (Number 75000))) rule_order))) 1 \<and>
           0 \<le> p \<and> p \<le> 1 \<and>
           v ''is_fraud'' = Some (PyBool (p > 0.5)) \<and>
           v ''detection_method'' = Some (PyStr ''rule_based''))"
proof -
  have h: "float_of (amount (sample_transaction (Number 75000))) = Inr 75000"
    by (simp add: float_of_def sample_transaction_def)
  show ?thesis
    using h rule_based_probability_clamped_sum[OF h, of sample_now] by simp
qed

lemma mem_reasons_iff:
  "x \<in> set (snd (contribution a t rs)) =
     (\<exists>r\<in>set rs. triggered a t r \<and> x \<in> set (rule_reasons a t r))"
  by (auto simp: contribution_def)

text \<open>
  Claim C10. In every rule-based verdict the list of reasons is non-empty exactly when
  \<open>fraud_probability > 0\<close>; the reasons are those of the triggered rules, in the order
  in which the rules are declared, and no reason occurs twice; each triggered rule adds
  its weight once. The invalid-address rule gives one reason for each address that
  fails the format check.
\<close>

theorem rule_based_reasons_in_rule_order:
  assumes "float_of (amount t) = Inr a"
  shows "\<exists>v rs p. rule_based_detection now t = Inr v \<and>
           v ''reasons'' = Some (PyList rs) \<and>
           v ''fraud_probability'' = Some (PyFloat p) \<and>
           ((rs \<noteq> []) = (p > 0)) \<and>
           rs = concat (map (rule_reasons a t) (filter (triggered a t) rule_order)) \<and>
           distinct rs \<and>
           p = min (sum_list (map weight (filter (triggered a t) rule_order))) 1 \<and>
           ((InvalidSenderFormat \<in> set rs) = (\<not> validate_upi_format (sender_upi t))) \<and>
           ((InvalidReceiverFormat \<in> set rs) = (\<not> validate_upi_format (receiver_upi t)))"
proof -
  define rs where "rs = snd (contribution a t rule_order)"
  define total where "total = fst (contribution a t rule_order)"
  have rs_eq: "rs = concat (map (rule_reasons a t) (filter (triggered a t) rule_order))"
    by (simp add: rs_def contribution_def)
  have total_eq: "total = sum_list (map weight (filter (triggered a t) rule_order))"
    by (simp add: total_def contribution_def)
  have nonempty: "(rs \<noteq> []) = (min total 1 > 0)"
    using score_zero_iff_no_reasons[of a t rule_order]
    by (auto simp: rs_def total_def min_def)
  have dist: "distinct rs"
    unfolding rs_def by (rule reasons_distinct)
  have sender: "(InvalidSenderFormat \<in> set rs) = (\<not> validate_upi_format (sender_upi t))"
    unfolding rs_def mem_reasons_iff
    by (simp add: rule_order_def rule_reasons_def triggered_def)
  have receiver: "(InvalidReceiverFormat \<in> set rs) = (\<not> validate_upi_format (receiver_upi t))"
    unfolding rs_def mem_reasons_iff
    by (simp add: rule_order_def rule_reasons_def triggered_def)
  have v: "rule_based_detection now t =
    Inr [''is_fraud'' \<mapsto> PyBool (total > 0.5),
         ''fraud_probability'' \<mapsto> PyFloat (min total 1),
         ''detection_method'' \<mapsto> PyStr ''rule_based'',
         ''reasons'' \<mapsto> PyList rs,
         ''timestamp'' \<mapsto> PyStr now]"
    unfolding rs_def total_def by (rule rule_based_detection_table[OF assms])
  show ?thesis
    unfolding v using nonempty dist sender receiver rs_eq total_eq by simp
qed

theorem rule_based_reasons_in_rule_order_witness:
  "float_of (amount (sample_transaction (Number 150000))) = Inr 150000 \<and>
   (\<exists>v rs p. rule_based_detection sample_now (sample_transaction (Number 150000)) = Inr v \<and>
           v ''reasons'' = Some (PyList rs) \<and>
           v ''fraud_probability'' = Some (PyFloat p) \<and>
           ((rs \<noteq> []) = (p > 0)) \<and>
           rs = concat (map (rule_reasons 150000 (sample_transaction (Number 150000)))
                  (filter (triggered 150000 (sample_transaction (Number 150000))) rule_order)) \<and>
           distinct rs)"
proof -
  have h: "float_of (amount (sample_transaction (Number 150000))) = Inr 150000"
    by (simp add: float_of_def sample_transaction_def)
  show ?thesis
    using h rule_based_reasons_in_rule_order[OF h, of sample_now] by blast
qed


lemma falsy_iff: "falsy x = (\<not> truthy x)"
  by (cases x) (simp_all add: falsy_def truthy_def)

lemma ravi_kumar_valid: "validate_upi_format (Some ''ravi.kumar@icici'')"
  by (simp add: validate_upi_format_def re_match_upi_def at_dollar_def char_class_defs)

lemma john_valid: "validate_upi_format (Some ''john@paytm'')"
  by (simp add: validate_upi_format_def re_match_upi_def at_dollar_def char_class_defs)

lemmas rule_defs =
  rule_amount_def rule_time_def rule_round_def rule_missing_def rule_self_def
  rule_invalid_def rule_suspicious_def rule_small_def rule_precision_def say_def bump_def

lemma score_75000:
  assumes "hour (created_at t) = 2"
    and "truthy (device_id t)" and "truthy (location t)"
    and "location t \<notin> set (map Some location_sentinels)"
    and "sender_upi t \<noteq> receiver_upi t"
    and "validate_upi_format (sender_upi t)" and "validate_upi_format (receiver_upi t)"
    and "\<not> is_suspicious_upi (sender_upi t)" and "\<not> is_suspicious_upi (receiver_upi t)"
  shows "score_rules 75000 t = (0.65, [HighAmount, UnusualTime 2, RoundAmount 75000])"
  using assms
  by (simp add: score_rules_def rule_defs falsy_iff py_mod_def py_int_def)

lemma score_150000:
  assumes "hour (created_at t) = 2"
    and "truthy (device_id t)" and "truthy (location t)"
    and "location t \<notin> set (map Some location_sentinels)"
    and "sender_upi t \<noteq> receiver_upi t"
    and "validate_upi_format (sender_upi t)" and "validate_upi_format (receiver_upi t)"
    and "\<not> is_suspicious_upi (sender_upi t)" and "\<not> is_suspicious_upi (receiver_upi t)"
  shows "score_rules 150000 t = (0.65, [HighAmount, UnusualTime 2, RoundAmount 150000])"
  using assms
  by (simp add: score_rules_def rule_defs falsy_iff py_mod_def py_int_def)

lemma sample_facts:
  "hour (created_at (sample_transaction x)) = 2"
  "truthy (device_id (sample_transaction x))"
  "truthy (location (sample_transaction x))"
  "location (sample_transaction x) \<notin> set (map Some location_sentinels)"
  "sender_upi (sample_transaction x) \<noteq> receiver_upi (sample_transaction x)"
  "validate_upi_format (sender_upi (sample_transaction x))"
  "validate_upi_format (receiver_upi (sample_transaction x))"
  "\<not> is_suspicious_upi (sender_upi (sample_transaction x))"
  "\<not> is_suspicious_upi (receiver_upi (sample_transaction x))"
  "amount (sample_transaction x) = x"
  using ravi_kumar_valid john_valid ravi_kumar_not_suspicious john_not_suspicious
  by (simp_all add: sample_transaction_def truthy_def location_sentinels_def)

text \<open>
  Claim C3, amended. For a transaction with amount 75000, hour 2, a device id, a location
  that is present and no sentinel, and distinct valid addresses that are not suspicious,
  the scorer triggers exactly the high-amount (0.3), odd-hour (0.2) and round-amount
  (0.15) rules: \<open>fraud_probability\<close> is 0.65 and \<open>is_fraud\<close> is true.
\<close>

theorem rule_based_75000_at_2am:
  assumes "amount t = Number 75000" and "hour (created_at t) = 2"
    and "truthy (device_id t)" and "truthy (location t)"
    and "location t \<notin> set (map Some location_sentinels)"
    and "sender_upi t \<noteq> receiver_upi t"
    and "validate_upi_format (sender_upi t)" and "validate_upi_format (receiver_upi t)"
    and "\<not> is_suspicious_upi (sender_upi t)" and "\<not> is_suspicious_upi (receiver_upi t)"
  shows "rule_based_detection now t =
    Inr [''is_fraud'' \<mapsto> PyBool True,
         ''fraud_probability'' \<mapsto> PyFloat 0.65,
         ''detection_method'' \<mapsto> PyStr ''rule_based'',
         ''reasons'' \<mapsto> PyList [HighAmount, UnusualTime 2, RoundAmount 75000],
         ''timestamp'' \<mapsto> PyStr now]"
  using assms(1) score_75000[OF assms(2-)]
  by (simp add: rule_based_detection_def float_of_def)

theorem rule_based_75000_at_2am_witness:
  "amount (sample_transaction (Number 75000)) = Number 75000 \<and>
   hour (created_at (sample_transaction (Number 75000))) = 2 \<and>
   truthy (device_id (sample_transaction (Number 75000))) \<and>
   truthy (location (sample_transaction (Number 75000))) \<and>
   location (sample_transaction (Number 75000)) \<notin> set (map Some location_sentinels) \<and>
   sender_upi (sample_transaction (Number 75000)) \<noteq>
     receiver_upi (sample_transaction (Number 75000)) \<and>
   validate_upi_format (sender_upi (sample_transaction (Number 75000))) \<and>
   validate_upi_format (receiver_upi (sample_transaction (Number 75000))) \<and>
   \<not> is_suspicious_upi (sender_upi (sample_transaction (Number 75000))) \<and>
   \<not> is_suspicious_upi (receiver_upi (sample_transaction (Number 75000))) \<and>
   rule_based_detection sample_now (sample_transaction (Number 75000)) =
    Inr [''is_fraud'' \<mapsto> PyBool True,
         ''fraud_probability'' \<mapsto> PyFloat 0.65,
         ''detection_method'' \<mapsto> PyStr ''rule_based'',
         ''reasons'' \<mapsto> PyList [HighAmount, UnusualTime 2, RoundAmount 75000],
         ''timestamp'' \<mapsto> PyStr sample_now]"
  using sample_facts[of "Number 75000"]
    rule_based_75000_at_2am[of "sample_transaction (Number 75000)" sample_now,
      OF sample_facts(10) sample_facts(1-9)]
  by blast

text \<open>
  Claim C3, as stated, fails. On the sample transaction with amount 75000 (hour 2, device
  and location present, distinct valid addresses that are not suspicious) the round-amount
  rule fires as well, since 75000 is a multiple of 1000 above 10000: the probability is
  0.65, not 0.5, and \<open>is_fraud\<close> is true.
\<close>

theorem rule_based_75000_counterexample:
  "\<exists>v. rule_based_detection sample_now (sample_transaction (Number 75000)) = Inr v \<and>
       v ''fraud_probability'' = Some (PyFloat 0.65) \<and>
       v ''fraud_probability'' \<noteq> Some (PyFloat 0.5) \<and>
       v ''is_fraud'' = Some (PyBool True) \<and>
       v ''reasons'' = Some (PyList [HighAmount, UnusualTime 2, RoundAmount 75000])"
  using score_75000[OF sample_facts(1-9), of "Number 75000"]
  by (simp add: rule_based_detection_def float_of_def sample_facts(10))

text \<open>
  Claim C1. For an amount above 100000 the claim expects the high-amount rule and the
  extremely-high-amount rule together (0.3 + 0.5), and on the sample transaction with
  amount 150000 a probability clamped at 1. The source gives 0.65 there, from the
  high-amount, odd-hour and round-amount rules, and no extremely-high-amount reason: the
  test \<^verbatim>\<open>amount > 100000\<close> is the \<^verbatim>\<open>elif\<close> of \<^verbatim>\<open>amount > 50000\<close>, so its
  branch never runs.
\<close>

theorem rule_based_150000_no_extremely_high:
  "rule_based_detection sample_now (sample_transaction (Number 150000)) =
    Inr [''is_fraud'' \<mapsto> PyBool True,
         ''fraud_probability'' \<mapsto> PyFloat 0.65,
         ''detection_method'' \<mapsto> PyStr ''rule_based'',
         ''reasons'' \<mapsto> PyList [HighAmount, UnusualTime 2, RoundAmount 150000],
         ''timestamp'' \<mapsto> PyStr sample_now]"
  using score_150000[OF sample_facts(1-9), of "Number 150000"]
  by (simp add: rule_based_detection_def float_of_def sample_facts(10))

lemma rule_amount_elif_never_runs:
  "rule_amount a st = (if a > 50000 then say HighAmount (bump 0.3 st) else st)"
  by (simp add: rule_amount_def)

lemma extremely_high_never_triggered: "\<not> triggered a t ExtremelyHighAmountRule"
  by (auto simp: triggered_def)

section \<open>Feature extraction\<close>

lemma pad_features_eq:
  "length features \<le> 64 \<Longrightarrow>
   pad_features a h features = features @ map (filler a h) [length features..<64]"
proof (induction a h features rule: pad_features.induct)
  case (1 a h features)
  show ?case
  proof (cases "length features < 64")
    case True
    have upt: "[length features..<64] = length features # [Suc (length features)..<64]"
      using True by (simp add: upt_conv_Cons)
    show ?thesis
    proof (cases "length features < 16")
      case True
      with 1 \<open>length features < 64\<close> show ?thesis
        by (subst pad_features.simps) (simp add: upt filler_def)
    next
      case False
      with 1 \<open>length features < 64\<close> show ?thesis
        by (subst pad_features.simps) (simp add: upt filler_def)
    qed
  next
    case False
    with 1 show ?thesis
      by (subst pad_features.simps) simp
  qed
qed

lemma filler_tail: "map (filler a h) [9..<64] = replicate 55 0"
  by (rule nth_equalityI) (simp_all add: filler_def del: upt_rec_numeral)

lemma filler_from_8: "map (filler a h) [8..<64] = (a * h) # replicate 55 0"
proof -
  have "map (filler a h) [8..<64] = filler a h 8 # map (filler a h) [9..<64]"
    by (simp add: upt_conv_Cons del: upt_rec_numeral)
  then show ?thesis
    by (simp only: filler_tail) (simp add: filler_def)
qed

lemma pad_features_eight:
  assumes "length features = 8"
  shows "pad_features a h features = features @ (a * h) # replicate 55 0"
proof -
  have "pad_features a h features = features @ map (filler a h) [length features..<64]"
    using assms by (intro pad_features_eq) simp
  then show ?thesis
    by (simp only: assms filler_from_8)
qed

lemma extract_features_value:
  assumes "float_of (amount t) = Inr a"
    and "sender_upi t = Some s" and "receiver_upi t = Some r"
  shows "extract_features t =
     Inr ([a / 100000,
           type_code (transaction_type t) / 2,
           of_nat (hour (created_at t)) / 23,
           of_nat (weekday (created_at t)) / 6,
           of_nat (length s) / 100,
           of_nat (length r) / 100,
           (if truthy (location t) then 1 else 0),
           (if truthy (device_id t) then 1 else 0),
           a * (of_nat (hour (created_at t)) / 23)] @ replicate 55 0)"
proof -
  define h :: rat where "h = of_nat (hour (created_at t)) / 23"
  define features where "features =
    [a / 100000, type_code (transaction_type t) / 2, h,
     of_nat (weekday (created_at t)) / 6, of_nat (length s) / 100, of_nat (length r) / 100,
     (if truthy (location t) then 1 else 0), (if truthy (device_id t) then 1 else (0::rat))]"
  have len: "length features = 8" by (simp add: features_def)
  have padded: "pad_features a h features = features @ (a * h) # replicate 55 0"
    by (rule pad_features_eight[OF len])
  have "extract_features t = Inr (take 64 (pad_features a h features))"
    using assms by (simp add: extract_features_def py_len_def Let_def features_def h_def)
  also have "take 64 (pad_features a h features) = features @ (a * h) # replicate 55 0"
    unfolding padded using len by simp
  finally show ?thesis
    by (simp add: features_def h_def)
qed

text \<open>
  Claim C7. For every transaction whose amount is a number and whose two addresses are
  strings, \<^verbatim>\<open>extract_features\<close> returns exactly 64 values: amount/100000, the type
  code/2 (\<open>SEND\<close> 0, \<open>RECEIVE\<close> 1, \<open>REQUEST\<close> 2, any other type 0), hour/23,
  weekday/6, the two address lengths/100, the location flag, the device flag, then
  amount * (hour/23) at index 8 and zeros at indices 9 to 63. An absent (or empty)
  location or device id gives the flag 0 and no failure.
\<close>

theorem extract_features_sixty_four:
  assumes "float_of (amount t) = Inr a"
    and "sender_upi t = Some s" and "receiver_upi t = Some r"
  shows "\<exists>fs. extract_features t = Inr fs \<and> length fs = 64 \<and>
           take 9 fs =
             [a / 100000,
              type_code (transaction_type t) / 2,
              of_nat (hour (created_at t)) / 23,
              of_nat (weekday (created_at t)) / 6,
              of_nat (length s) / 100,
              of_nat (length r) / 100,
              (if truthy (location t) then 1 else 0),
              (if truthy (device_id t) then 1 else 0),
              a * (of_nat (hour (created_at t)) / 23)] \<and>
           drop 9 fs = replicate 55 0 \<and>
           (\<forall>i. 9 \<le> i \<and> i < 64 \<longrightarrow> fs ! i = 0) \<and>
           (falsy (location t) \<longrightarrow> fs ! 6 = 0) \<and>
           (falsy (device_id t) \<longrightarrow> fs ! 7 = 0) \<and>
           type_code ''SEND'' = 0 \<and> type_code ''RECEIVE'' = 1 \<and> type_code ''REQUEST'' = 2 \<and>
           (transaction_type t \<notin> {''SEND'', ''RECEIVE'', ''REQUEST''} \<longrightarrow>
              type_code (transaction_type t) = 0)"
proof -
  define front where "front =
    [a / 100000, type_code (transaction_type t) / 2, of_nat (hour (created_at t)) / 23,
     of_nat (weekday (created_at t)) / 6, of_nat (length s) / 100, of_nat (length r) / 100,
     (if truthy (location t) then 1 else 0), (if truthy (device_id t) then 1 else 0),
     a * (of_nat (hour (created_at t)) / 23)]"
  define fs where "fs = front @ replicate 55 (0::rat)"
  have len_front: "length front = 9" by (simp add: front_def)
  have res: "extract_features t = Inr fs"
    unfolding fs_def front_def by (rule extract_features_value[OF assms])
  have len: "length fs = 64" by (simp add: fs_def len_front)
  have front: "take 9 fs = front" by (simp add: fs_def len_front)
  have rear: "drop 9 fs = replicate 55 0" by (simp add: fs_def len_front)
  have zeros: "\<forall>i. 9 \<le> i \<and> i < 64 \<longrightarrow> fs ! i = 0"
    by (auto simp: fs_def nth_append len_front)
  have loc: "falsy (location t) \<longrightarrow> fs ! 6 = 0"
    by (cases "location t") (simp_all add: fs_def front_def falsy_def truthy_def)
  have dev: "falsy (device_id t) \<longrightarrow> fs ! 7 = 0"
    by (cases "device_id t") (simp_all add: fs_def front_def falsy_def truthy_def)
  have codes: "type_code ''SEND'' = 0 \<and> type_code ''RECEIVE'' = 1 \<and> type_code ''REQUEST'' = 2"
    by (simp add: type_code_def type_encoding_def)
  have other: "transaction_type t \<notin> {''SEND'', ''RECEIVE'', ''REQUEST''} \<longrightarrow>
              type_code (transaction_type t) = 0"
    by (simp add: type_code_def type_encoding_def)
  show ?thesis
    using res len front rear zeros loc dev codes other
    unfolding front_def by blast
qed

theorem extract_features_sixty_four_witness:
  "float_of (amount ((sample_transaction (Number 75000))\<lparr>location := None\<rparr>)) = Inr 75000 \<and>
   sender_upi ((sample_transaction (Number 75000))\<lparr>location := None\<rparr>)
     = Some ''ravi.kumar@icici'' \<and>
   receiver_upi ((sample_transaction (Number 75000))\<lparr>location := None\<rparr>)
     = Some ''john@paytm'' \<and>
   falsy (location ((sample_transaction (Number 75000))\<lparr>location := None\<rparr>)) \<and>
   (\<exists>fs. extract_features ((sample_transaction (Number 75000))\<lparr>location := None\<rparr>) = Inr fs \<and>
      length fs = 64 \<and>
      take 9 fs = [3 / 4, 0, 2 / 23, 0, 4 / 25, 1 / 10, 0, 1, 150000 / 23] \<and>
      drop 9 fs = replicate 55 0)"
proof -
  let ?t = "(sample_transaction (Number 75000))\<lparr>location := None\<rparr>"
  have h1: "float_of (amount ?t) = Inr 75000"
    by (simp add: float_of_def sample_transaction_def)
  have h2: "sender_upi ?t = Some ''ravi.kumar@icici''"
    by (simp add: sample_transaction_def)
  have h3: "receiver_upi ?t = Some ''john@paytm''"
    by (simp add: sample_transaction_def)
  have h4: "falsy (location ?t)" by (simp add: falsy_def)
  from extract_features_sixty_four[OF h1 h2 h3]
  obtain fs where "extract_features ?t = Inr fs" "length fs = 64"
    "take 9 fs = [75000 / 100000, type_code (transaction_type ?t) / 2,
        of_nat (hour (created_at ?t)) / 23, of_nat (weekday (created_at ?t)) / 6,
        of_nat (length ''ravi.kumar@icici'') / 100, of_nat (length ''john@paytm'') / 100,
        (if truthy (location ?t) then 1 else 0), (if truthy (device_id ?t) then 1 else 0),
        75000 * (of_nat (hour (created_at ?t)) / 23)]"
    "drop 9 fs = replicate 55 0"
    by blast
  then have "extract_features ?t = Inr fs \<and> length fs = 64 \<and>
      take 9 fs = [3 / 4, 0, 2 / 23, 0, 4 / 25, 1 / 10, 0, 1, 150000 / 23] \<and>
      drop 9 fs = replicate 55 0"
    by (simp add: sample_transaction_def truthy_def type_code_def type_encoding_def)
  then show ?thesis using h1 h2 h3 h4 by blast
qed

section \<open>\<^verbatim>\<open>predict\<close> and its fallback\<close>

lemma serve_eq: "serve self reqs = (map (\<lambda>req. predict (fst req) self (snd req)) reqs, self)"
  by (induction reqs) (simp_all add: predict_step_def)

lemma rule_based_detection_method:
  "rule_based_detection now t = Inr v \<Longrightarrow> v ''detection_method'' = Some (PyStr ''rule_based'')"
  by (auto simp: rule_based_detection_def Let_def split: sum.splits)

lemma rule_based_detection_returns_iff:
  "(\<exists>v. rule_based_detection now t = Inr v) = (\<exists>a. amount t = Number a)"
  by (cases "amount t") (simp_all add: rule_based_detection_def float_of_def Let_def)

lemma rule_based_detection_malformed:
  "amount t = Malformed \<Longrightarrow> rule_based_detection now t = Inl ValueError"
  by (simp add: rule_based_detection_def float_of_def)

lemma extract_features_malformed:
  "amount t = Malformed \<Longrightarrow> extract_features t = Inl ValueError"
  by (simp add: extract_features_def float_of_def)

lemma predict_None: "model self = None \<Longrightarrow> predict now self t = rule_based_detection now t"
  by (simp add: predict_def predict_body_def try_except_def split: sum.splits)

lemma predict_cases:
  "predict now self t = rule_based_detection now t \<or>
   (\<exists>p. predict now self t = Inr (cnn_verdict now p))"
  by (auto simp: predict_def predict_body_def try_except_def split: sum.splits option.splits)

text \<open>An exception of the model path is caught: the answer is the rule-based one.\<close>

lemma predict_inference_failure_falls_back:
  assumes "model self = Some c" and "inner_model_set c"
    and "extract_features t = Inr features" and "cnn_predict c features = Inl e"
  shows "predict now self t = rule_based_detection now t"
  using assms by (simp add: predict_def predict_body_def try_except_def)

lemma predict_extraction_failure_falls_back:
  assumes "model self = Some c" and "inner_model_set c"
    and "extract_features t = Inl e"
  shows "predict now self t = rule_based_detection now t"
  using assms by (simp add: predict_def predict_body_def try_except_def)

lemma predict_failing_cnn:
  "predict now \<lparr>model = Some failing_cnn\<rparr> t = rule_based_detection now t"
  by (simp add: predict_def predict_body_def try_except_def failing_cnn_def
      split: sum.splits)

text \<open>
  Claim C2, as stated, fails: on a record whose amount \<^verbatim>\<open>float()\<close> rejects,
  \<^verbatim>\<open>rule_based_detection\<close> raises, and so does \<^verbatim>\<open>predict\<close>, with or without a
  model: the handler of its \<^verbatim>\<open>try\<close> calls \<^verbatim>\<open>rule_based_detection\<close> again,
  outside any \<^verbatim>\<open>try\<close>.
\<close>

theorem predict_malformed_amount_counterexample:
  "predict sample_now \<lparr>model = None\<rparr> (sample_transaction Malformed) = Inl ValueError \<and>
   predict sample_now \<lparr>model = Some (constant_cnn 0.9)\<rparr> (sample_transaction Malformed)
     = Inl ValueError \<and>
   rule_based_detection sample_now (sample_transaction Malformed) = Inl ValueError"
  by (simp add: predict_def predict_body_def try_except_def rule_based_detection_def
      extract_features_def float_of_def sample_transaction_def constant_cnn_def)

text \<open>
  Claim C2, amended. \<^verbatim>\<open>predict\<close> returns a verdict exactly when the amount is a
  number, whatever the detector holds (no model, a model whose feature extraction or
  inference raises) and whatever the optional fields and addresses are; the same holds
  of \<^verbatim>\<open>rule_based_detection\<close>. An exception of the model path is caught and answered
  by the rule-based verdict.
\<close>

theorem predict_returns_iff_amount_numeric:
  "(\<exists>v. predict now self t = Inr v) = (\<exists>a. amount t = Number a) \<and>
   (\<exists>v. rule_based_detection now t = Inr v) = (\<exists>a. amount t = Number a)"
proof -
  have "(\<exists>v. predict now self t = Inr v) = (\<exists>a. amount t = Number a)"
  proof (cases "amount t")
    case (Number a)
    then obtain v where "rule_based_detection now t = Inr v"
      using rule_based_detection_returns_iff[of now t] by auto
    then have "\<exists>v. predict now self t = Inr v"
      using predict_cases[of now self t] by auto
    with Number show ?thesis by simp
  next
    case Malformed
    then have "predict now self t = Inl ValueError"
      by (simp add: predict_def predict_body_def try_except_def
          rule_based_detection_malformed extract_features_malformed split: option.splits)
    with Malformed show ?thesis by simp
  qed
  then show ?thesis using rule_based_detection_returns_iff by simp
qed

text \<open>
  Claim C8. When a model file or the scaler file is absent, the constructor leaves
  \<open>model = None\<close>. With \<open>model = None\<close>, \<^verbatim>\<open>predict\<close> is
  \<^verbatim>\<open>rule_based_detection\<close> on every input, and on every record whose amount is a
  number it returns a verdict with \<open>detection_method = 'rule_based'\<close>. Serving any
  sequence of requests answers each with the rule-based scorer and leaves the detector
  as it was: nothing loads the model again.
\<close>

theorem predict_without_model_is_rule_based:
  "(\<not> artifacts_present env \<longrightarrow> model (init env) = None) \<and>
   (model self = None \<longrightarrow>
      predict now self t = rule_based_detection now t \<and>
      (\<forall>a. amount t = Number a \<longrightarrow>
         (\<exists>v. predict now self t = Inr v \<and>
              v ''detection_method'' = Some (PyStr ''rule_based''))) \<and>
      serve self reqs = (map (\<lambda>req. rule_based_detection (fst req) (snd req)) reqs, self))"
proof -
  have load: "\<not> artifacts_present env \<longrightarrow> model (init env) = None"
    by (auto simp: artifacts_present_def init_def load_model_def split: option.splits)
  have run: "predict now self t = rule_based_detection now t \<and>
      (\<forall>a. amount t = Number a \<longrightarrow>
         (\<exists>v. predict now self t = Inr v \<and>
              v ''detection_method'' = Some (PyStr ''rule_based''))) \<and>
      serve self reqs = (map (\<lambda>req. rule_based_detection (fst req) (snd req)) reqs, self)"
    if none: "model self = None"
  proof -
    have p: "\<And>now t. predict now self t = rule_based_detection now t"
      using none by (rule predict_None)
    have "\<exists>v. predict now self t = Inr v \<and> v ''detection_method'' = Some (PyStr ''rule_based'')"
      if "amount t = Number a" for a
    proof -
      from that obtain v where v: "rule_based_detection now t = Inr v"
        using rule_based_detection_returns_iff[of now t] by auto
      then show ?thesis using p rule_based_detection_method[OF v] by simp
    qed
    then show ?thesis using p by (simp add: serve_eq)
  qed
  show ?thesis using load run by blast
qed

theorem predict_without_model_is_rule_based_witness:
  "\<not> artifacts_present bare_environment \<and>
   model (init bare_environment) = None \<and>
   amount (sample_transaction (Number 75000)) = Number 75000 \<and>
   predict sample_now (init bare_environment) (sample_transaction (Number 75000))
     = rule_based_detection sample_now (sample_transaction (Number 75000)) \<and>
   (\<exists>v. predict sample_now (init bare_environment) (sample_transaction (Number 75000)) = Inr v \<and>
        v ''detection_method'' = Some (PyStr ''rule_based'')) \<and>
   serve (init bare_environment)
     [(sample_now, sample_transaction (Number 75000)),
      (sample_now, sample_transaction (Number 150000))]
   = ([rule_based_detection sample_now (sample_transaction (Number 75000)),
       rule_based_detection sample_now (sample_transaction (Number 150000))],
      init bare_environment)"
proof -
  have absent: "\<not> artifacts_present bare_environment"
    by (simp add: artifacts_present_def bare_environment_def)
  have amt: "amount (sample_transaction (Number 75000)) = Number 75000"
    by (simp add: sample_transaction_def)
  note inst = predict_without_model_is_rule_based[of bare_environment "init bare_environment"
      sample_now "sample_transaction (Number 75000)"
      "[(sample_now, sample_transaction (Number 75000)),
        (sample_now, sample_transaction (Number 150000))]"]
  from inst absent have none: "model (init bare_environment) = None" by blast
  from inst none have same:
    "predict sample_now (init bare_environment) (sample_transaction (Number 75000))
       = rule_based_detection sample_now (sample_transaction (Number 75000))"
    by blast
  from inst none amt have returns:
    "\<exists>v. predict sample_now (init bare_environment) (sample_transaction (Number 75000)) = Inr v \<and>
        v ''detection_method'' = Some (PyStr ''rule_based'')"
    by blast
  from inst none have
    "serve (init bare_environment)
       [(sample_now, sample_transaction (Number 75000)),
        (sample_now, sample_transaction (Number 150000))]
     = (map (\<lambda>req. rule_based_detection (fst req) (snd req))
          [(sample_now, sample_transaction (Number 75000)),
           (sample_now, sample_transaction (Number 150000))],
        init bare_environment)"
    by blast
  then have served:
    "serve (init bare_environment)
       [(sample_now, sample_transaction (Number 75000)),
        (sample_now, sample_transaction (Number 150000))]
     = ([rule_based_detection sample_now (sample_transaction (Number 75000)),
         rule_based_detection sample_now (sample_transaction (Number 150000))],
        init bare_environment)"
    by (simp del: serve.simps)
  from absent none amt same returns served show ?thesis by blast
qed

text \<open>
  Claim C9, as stated, fails: the verdict of the model path has no \<open>reasons\<close> key at
  all, so it does not hold an empty list under that key.
\<close>

theorem cnn_verdict_has_no_reasons_counterexample:
  "\<exists>v. predict sample_now \<lparr>model = Some (constant_cnn 0.9)\<rparr>
          (sample_transaction (Number 75000)) = Inr v \<and>
       v ''detection_method'' = Some (PyStr ''cnn_model'') \<and>
       v ''reasons'' = None \<and>
       v ''reasons'' \<noteq> Some (PyList [])"
  by (simp add: predict_def predict_body_def try_except_def constant_cnn_def
      extract_features_value[of _ 75000 "''ravi.kumar@icici''" "''john@paytm''"]
      float_of_def sample_transaction_def cnn_verdict_def Let_def)

text \<open>
  Claim C9, amended. A verdict with \<open>detection_method = 'cnn_model'\<close> has exactly the
  keys \<open>is_fraud\<close>, \<open>fraud_probability\<close>, \<open>detection_method\<close>, \<open>confidence\<close> and
  \<open>timestamp\<close>, and no \<open>reasons\<close>; its \<open>confidence\<close> is
  \<open>\<bar>fraud_probability - 0.5\<bar> * 2\<close>, which lies between 0 and 1 whenever the
  probability the model returned does.
\<close>

theorem cnn_verdict_fields:
  assumes "predict now self t = Inr v"
    and "v ''detection_method'' = Some (PyStr ''cnn_model'')"
  shows "v ''reasons'' = None \<and>
         dom v = {''is_fraud'', ''fraud_probability'', ''detection_method'',
                  ''confidence'', ''timestamp''} \<and>
         (\<exists>p. v ''fraud_probability'' = Some (PyFloat p) \<and>
              v ''confidence'' = Some (PyFloat (\<bar>p - 0.5\<bar> * 2)) \<and>
              v ''is_fraud'' = Some (PyBool (p > 0.5)) \<and>
              (0 \<le> p \<and> p \<le> 1 \<longrightarrow> 0 \<le> \<bar>p - 0.5\<bar> * 2 \<and> \<bar>p - 0.5\<bar> * 2 \<le> 1))"
proof -
  from predict_cases[of now self t] obtain p where v: "v = cnn_verdict now p"
  proof
    assume "predict now self t = rule_based_detection now t"
    with assms(1) have "v ''detection_method'' = Some (PyStr ''rule_based'')"
      using rule_based_detection_method[of now t v] by simp
    with assms(2) show ?thesis by simp
  next
    assume "\<exists>p. predict now self t = Inr (cnn_verdict now p)"
    with assms(1) that show ?thesis by auto
  qed
  have bound: "0 \<le> p \<and> p \<le> 1 \<longrightarrow> 0 \<le> \<bar>p - 0.5\<bar> * 2 \<and> \<bar>p - 0.5\<bar> * 2 \<le> 1"
    by (auto simp: abs_if)
  have "v ''reasons'' = None" by (simp add: v cnn_verdict_def Let_def)
  moreover have "dom v = {''is_fraud'', ''fraud_probability'', ''detection_method'',
                  ''confidence'', ''timestamp''}"
    by (auto simp: v cnn_verdict_def Let_def)
  moreover have "v ''fraud_probability'' = Some (PyFloat p) \<and>
              v ''confidence'' = Some (PyFloat (\<bar>p - 0.5\<bar> * 2)) \<and>
              v ''is_fraud'' = Some (PyBool (p > 0.5))"
    by (simp add: v cnn_verdict_def Let_def)
  ultimately show ?thesis using bound by blast
qed

theorem cnn_verdict_fields_witness:
  "predict sample_now \<lparr>model = Some (constant_cnn 0.9)\<rparr> (sample_transaction (Number 75000))
     = Inr (cnn_verdict sample_now 0.9) \<and>
   cnn_verdict sample_now 0.9 ''detection_method'' = Some (PyStr ''cnn_model'') \<and>
   cnn_verdict sample_now 0.9 ''reasons'' = None \<and>
   cnn_verdict sample_now 0.9 ''fraud_probability'' = Some (PyFloat 0.9) \<and>
   cnn_verdict sample_now 0.9 ''confidence'' = Some (PyFloat 0.8) \<and>
   dom (cnn_verdict sample_now 0.9) =
     {''is_fraud'', ''fraud_probability'', ''detection_method'', ''confidence'', ''timestamp''}"
proof -
  have h1: "predict sample_now \<lparr>model = Some (constant_cnn 0.9)\<rparr>
      (sample_transaction (Number 75000)) = Inr (cnn_verdict sample_now 0.9)"
    by (simp add: predict_def predict_body_def try_except_def constant_cnn_def
        extract_features_value[of _ 75000 "''ravi.kumar@icici''" "''john@paytm''"]
        float_of_def sample_transaction_def)
  have h2: "cnn_verdict sample_now 0.9 ''detection_method'' = Some (PyStr ''cnn_model'')"
    by (simp add: cnn_verdict_def Let_def)
  have nums: "cnn_verdict sample_now 0.9 ''fraud_probability'' = Some (PyFloat 0.9)"
    "cnn_verdict sample_now 0.9 ''confidence'' = Some (PyFloat 0.8)"
    by (simp_all add: cnn_verdict_def Let_def)
  note fields = cnn_verdict_fields[OF h1 h2]
  have no_reasons: "cnn_verdict sample_now 0.9 ''reasons'' = None"
    by (rule fields[THEN conjunct1])
  have keys: "dom (cnn_verdict sample_now 0.9) =
       {''is_fraud'', ''fraud_probability'', ''detection_method'', ''confidence'',
        ''timestamp''}"
    by (rule fields[THEN conjunct2, THEN conjunct1])
  show ?thesis
    using h1 h2 no_reasons nums keys by (intro conjI) assumption+
qed


end
